theory Spec2Isabelle
  imports Main
begin

section \<open>Python primitives used by \<^verbatim>\<open>langkit/gdb/commands.py\<close>\<close>

text \<open>
  Strings are byte strings (the module is Python 2: it imports \<^verbatim>\<open>StringIO\<close>), so a
  \<open>string\<close> is a list of \<open>char\<close> and \<open>length\<close> is Python's \<^verbatim>\<open>len\<close>.
\<close>

definition isspace :: "char \<Rightarrow> bool" where
  \<comment> \<open>the whitespace of \<^verbatim>\<open>str.split()\<close> and \<^verbatim>\<open>str.strip()\<close>: tab, LF, VT, FF, CR, space\<close>
  "isspace c = ((of_char c :: nat) \<in> {9, 10, 11, 12, 13, 32})"

definition lower_char :: "char \<Rightarrow> char" where
  "lower_char c =
     (let n = (of_char c :: nat) in if 65 \<le> n \<and> n \<le> 90 then char_of (n + 32) else c)"

definition lower :: "string \<Rightarrow> string" where
  \<comment> \<open>\<^verbatim>\<open>str.lower()\<close>\<close>
  "lower s = map lower_char s"

definition strip :: "string \<Rightarrow> string" where
  \<comment> \<open>\<^verbatim>\<open>str.strip()\<close>\<close>
  "strip s = rev (dropWhile isspace (rev (dropWhile isspace s)))"

fun split_max :: "nat \<Rightarrow> string \<Rightarrow> string list" where
  \<comment> \<open>\<^verbatim>\<open>s.split(None, maxsplit)\<close>: at most \<open>maxsplit\<close> words are cut off; what is left after
      them, without its leading whitespace, is the last item when it is not empty\<close>
  "split_max 0 s = (let r = dropWhile isspace s in if r = [] then [] else [r])"
| "split_max (Suc n) s =
     (let r = dropWhile isspace s
      in if r = [] then []
         else takeWhile (\<lambda>c. \<not> isspace c) r # split_max n (dropWhile (\<lambda>c. \<not> isspace c) r))"

definition split :: "string \<Rightarrow> string list" where
  \<comment> \<open>\<^verbatim>\<open>s.split()\<close>: no bound on the number of words; a string has at most \<open>length s\<close> words\<close>
  "split s = split_max (length s) s"

definition startswith :: "string \<Rightarrow> string \<Rightarrow> bool" where
  "startswith s p = (take (length p) s = p)"

fun join :: "string \<Rightarrow> string list \<Rightarrow> string" where
  \<comment> \<open>\<^verbatim>\<open>sep.join(xs)\<close>\<close>
  "join sep [] = []"
| "join sep [x] = x"
| "join sep (x # y # ys) = x @ sep @ join sep (y # ys)"

definition rjust :: "nat \<Rightarrow> string \<Rightarrow> string" where
  \<comment> \<open>\<^verbatim>\<open>s.rjust(width)\<close>\<close>
  "rjust width s = replicate (width - length s) CHR '' '' @ s"

definition digit_char :: "nat \<Rightarrow> char" where
  "digit_char d = char_of (48 + d)"

function str_nat :: "nat \<Rightarrow> string" where
  "str_nat n = (if n < 10 then [digit_char n] else str_nat (n div 10) @ [digit_char (n mod 10)])"
  by pat_completeness auto
termination
  by (relation "measure id") auto

definition str_int :: "int \<Rightarrow> string" where
  \<comment> \<open>\<^verbatim>\<open>'{}'.format(i)\<close> for an integer\<close>
  "str_int i = (if i < 0 then CHR ''-'' # str_nat (nat (- i)) else str_nat (nat i))"

definition isdigit :: "char \<Rightarrow> bool" where
  "isdigit c = (48 \<le> (of_char c :: nat) \<and> (of_char c :: nat) \<le> 57)"

definition digits_value :: "string \<Rightarrow> nat" where
  "digits_value ds = foldl (\<lambda>acc c. 10 * acc + (of_char c - 48)) 0 ds"

definition py_int :: "string \<Rightarrow> int option" where
  \<comment> \<open>\<^verbatim>\<open>int(s)\<close> on a string: surrounding whitespace is ignored, one sign is allowed, the
      rest is a non-empty run of decimal digits; \<open>None\<close> stands for \<^verbatim>\<open>ValueError\<close>\<close>
  "py_int s =
     (let t = strip s;
          neg = (t \<noteq> [] \<and> hd t = CHR ''-'');
          ds = (if t \<noteq> [] \<and> (hd t = CHR ''-'' \<or> hd t = CHR ''+'') then tl t else t)
      in if ds \<noteq> [] \<and> list_all isdigit ds
         then Some (if neg then - int (digits_value ds) else int (digits_value ds))
         else None)"

datatype py_exn = AttributeError | IndexError

text \<open>
  What a command writes: one \<open>Print\<close> per call of \<^verbatim>\<open>print\<close>, one \<open>Prompt\<close> for the prompt
  of \<^verbatim>\<open>raw_input\<close>. \<^verbatim>\<open>'Invalid flags: {}'.format(', '.join(invalid_flags))\<close> joins a Python
  set, whose iteration order is not fixed by the language: that line is kept as the set.
\<close>

datatype written = Print string | Prompt string | Print_Invalid_flags "char set"

section \<open>The debug information the commands read\<close>

text \<open>
  \<^verbatim>\<open>langkit.gdb.debug_info\<close> is an external collaborator. The commands read the
  attributes below; a DSL location is an opaque value \<open>'loc\<close> that comes with the three
  operations of \<^verbatim>\<open>DSLLocation\<close> the commands call.
\<close>

record 'loc ExprStart =
  result_var :: string
  dsl_sloc :: "'loc option"
  line_no :: int
  expr_text :: string  \<comment> \<open>what \<^verbatim>\<open>expr_repr\<close> shows of the expression\<close>

datatype 'loc Event =
    Scope "'loc Event list"
  | ExprStart "'loc ExprStart"
  | OtherEvent  \<comment> \<open>any event that is neither a \<^verbatim>\<open>Scope\<close> nor an \<^verbatim>\<open>ExprStart\<close>\<close>

record 'loc Property =
  name :: string
  prop_dsl_sloc :: "'loc option"
  body_start :: "int option"
  events :: "'loc Event list"

record 'loc DebugInfo =
  filename :: string
  properties :: "'loc Property list"

record 'loc DSLLocation =
  DSLLocation_parse :: "string \<Rightarrow> 'loc"
  DSLLocation_matches :: "'loc \<Rightarrow> 'loc \<Rightarrow> bool"
  DSLLocation_str :: "'loc \<Rightarrow> string"

record Breakpoint =
  location :: string
  condition :: "string option"

definition gdb_Breakpoint :: "string \<Rightarrow> int \<Rightarrow> Breakpoint" where
  \<comment> \<open>\<^verbatim>\<open>gdb.Breakpoint('{}:{}'.format(filename, line))\<close>\<close>
  "gdb_Breakpoint file line = \<lparr>location = file @ '':'' @ str_int line, condition = None\<rparr>"

section \<open>\<^verbatim>\<open>BreakCommand\<close>\<close>

subsection \<open>\<^verbatim>\<open>break_on_property\<close>\<close>

fun find_property :: "string \<Rightarrow> 'loc Property list \<Rightarrow> 'loc Property option" where
  \<comment> \<open>the \<^verbatim>\<open>for\<close>/\<^verbatim>\<open>else\<close> loop: the first property whose lower-cased name is \<open>lower_prop\<close>,
      \<open>None\<close> when the loop runs to its \<^verbatim>\<open>else\<close>\<close>
  "find_property lower_prop [] = None"
| "find_property lower_prop (prop # props) =
     (if lower (name prop) = lower_prop then Some prop else find_property lower_prop props)"

definition break_on_property ::
  "'loc DebugInfo \<Rightarrow> string \<Rightarrow> written list \<times> Breakpoint option" where
  "break_on_property debug_info qualname =
     (let lower_prop = lower qualname
      in case find_property lower_prop (properties debug_info) of
           None \<Rightarrow> ([Print (''No such property: '' @ qualname)], None)
         | Some prop \<Rightarrow>
             (case body_start prop of
                None \<Rightarrow> ([Print (''Cannot break on '' @ name prop @ '': it has no code'')], None)
              | Some line \<Rightarrow> ([], Some (gdb_Breakpoint (filename debug_info) line))))"

subsection \<open>\<^verbatim>\<open>break_on_dsl_sloc\<close>\<close>

record 'loc Match =
  m_prop :: "'loc Property"
  m_dsl_sloc :: 'loc
  m_line_no :: int

fun process_scope ::
    "'loc DSLLocation \<Rightarrow> 'loc \<Rightarrow> 'loc Property \<Rightarrow> 'loc Event list \<Rightarrow> 'loc Match list
      \<Rightarrow> 'loc Match list"
  and process_event ::
    "'loc DSLLocation \<Rightarrow> 'loc \<Rightarrow> 'loc Property \<Rightarrow> 'loc Event \<Rightarrow> 'loc Match list
      \<Rightarrow> 'loc Match list" where
  "process_scope api q prop [] matches = matches"
| "process_scope api q prop (e # es) matches =
     process_scope api q prop es (process_event api q prop e matches)"
| "process_event api q prop (Scope evs) matches = process_scope api q prop evs matches"
| "process_event api q prop (ExprStart e) matches =
     (case dsl_sloc e of
        None \<Rightarrow> matches
      | Some l \<Rightarrow>
          if DSLLocation_matches api l q
          then matches @ [\<lparr>m_prop = prop, m_dsl_sloc = l, m_line_no = line_no e\<rparr>]
          else matches)"
| "process_event api q prop OtherEvent matches = matches"

fun process_properties ::
  "'loc DSLLocation \<Rightarrow> 'loc \<Rightarrow> 'loc Property list \<Rightarrow> 'loc Match list \<Rightarrow> 'loc Match list" where
  \<comment> \<open>\<^verbatim>\<open>for prop in properties: process_scope(prop, prop)\<close>\<close>
  "process_properties api q [] matches = matches"
| "process_properties api q (prop # props) matches =
     process_properties api q props (process_scope api q prop (events prop) matches)"

definition idx_fmt :: "nat \<Rightarrow> string" where
  "idx_fmt i = ''['' @ str_nat i @ ''] ''"

fun list_matches ::
  "'loc DSLLocation \<Rightarrow> string \<Rightarrow> nat \<Rightarrow> nat \<Rightarrow> 'loc Match list \<Rightarrow> written list" where
  \<comment> \<open>\<^verbatim>\<open>for i, m in enumerate(matches, 1)\<close>: two lines for each match, \<open>i\<close> counting up\<close>
  "list_matches api file idx_width i [] = []"
| "list_matches api file idx_width i (m # ms) =
     [Print (rjust idx_width (idx_fmt i) @ ''In '' @ name (m_prop m) @ '', ''
               @ DSLLocation_str api (m_dsl_sloc m)),
      Print (replicate idx_width CHR '' '' @ ''at '' @ file @ '':'' @ str_int (m_line_no m))]
     @ list_matches api file idx_width (Suc i) ms"

definition list_index :: "'a list \<Rightarrow> int \<Rightarrow> py_exn + 'a" where
  \<comment> \<open>\<^verbatim>\<open>xs[i]\<close>: from the front for \<open>i \<ge> 0\<close>, from the back for \<open>i < 0\<close>, \<^verbatim>\<open>IndexError\<close> outside\<close>
  "list_index xs i =
     (if 0 \<le> i
      then (if nat i < length xs then Inr (xs ! nat i) else Inl IndexError)
      else (if nat (- i) \<le> length xs then Inr (xs ! (length xs - nat (- i)))
            else Inl IndexError))"

definition break_on_dsl_sloc ::
  "'loc DSLLocation \<Rightarrow> 'loc DebugInfo \<Rightarrow> string option \<Rightarrow> string
    \<Rightarrow> written list \<times> (py_exn + Breakpoint option)" where
  \<comment> \<open>\<open>stdin\<close> is what \<^verbatim>\<open>get_input\<close> reads when it is called: \<open>None\<close> for end of input
      (\<^verbatim>\<open>EOFError\<close>), \<open>Some line\<close> otherwise\<close>
  "break_on_dsl_sloc api debug_info stdin dsl_sloc_arg =
     (let q = DSLLocation_parse api dsl_sloc_arg;
          matches = process_properties api q (properties debug_info) [];
          file = filename debug_info
      in if matches = [] then ([Print (''No match for '' @ DSLLocation_str api q)], Inr None)
         else if length matches = 1
         then ([], Inr (Some (gdb_Breakpoint file (m_line_no (hd matches)))))
         else
           let idx_width = length (idx_fmt (length matches));
               out = [Print (''Multiple matches for '' @ DSLLocation_str api q @ '':'')]
                     @ list_matches api file idx_width 1 matches
                     @ [Print ''Please chose one of the above locations [default=1]:'',
                        Prompt ''> ''];
               pick = (\<lambda>choice.
                 case list_index matches choice of
                   Inl exn \<Rightarrow> (out, Inl exn)
                 | Inr m \<Rightarrow> (out, Inr (Some (gdb_Breakpoint file (m_line_no m)))))
           in case stdin of
                None \<Rightarrow> (out @ [Print ''Aborting: no breakpoint created''], Inr None)
              | Some choice \<Rightarrow>
                  if choice = [] then pick 1
                  else
                    (case py_int choice of
                       None \<Rightarrow> (out @ [Print (''Invalid index choice: '' @ choice)], Inr None)
                     | Some c \<Rightarrow>
                         if c < 1 \<or> c > int (length matches)
                         then (out @ [Print (''Choice must be in range '' @ str_int 1 @ ''-''
                                               @ str_nat (length matches))], Inr None)
                         else pick c))"

subsection \<open>\<^verbatim>\<open>invoke\<close>\<close>

record 'loc Gdb =
  api :: "'loc DSLLocation"
  debug_info :: "'loc DebugInfo"
  condition_error :: "string \<Rightarrow> string option"
    \<comment> \<open>the message of the \<^verbatim>\<open>gdb.error\<close> that assigning this text to \<^verbatim>\<open>bp.condition\<close> raises,
        \<open>None\<close> when gdb accepts the condition\<close>

record BreakResult =
  printed :: "written list"
  created :: "Breakpoint option"  \<comment> \<open>the breakpoint that now exists in gdb, if any\<close>
  raised :: "py_exn option"  \<comment> \<open>the exception that leaves \<^verbatim>\<open>invoke\<close>, if any\<close>

definition resolve ::
  "'loc Gdb \<Rightarrow> string option \<Rightarrow> string \<Rightarrow> written list \<times> (py_exn + Breakpoint option)" where
  \<comment> \<open>\<^verbatim>\<open>self.break_on_dsl_sloc(spec) if ':' in spec else self.break_on_property(spec)\<close>\<close>
  "resolve g stdin spec =
     (if CHR '':'' \<in> set spec then break_on_dsl_sloc (api g) (debug_info g) stdin spec
      else case break_on_property (debug_info g) spec of (out, bp) \<Rightarrow> (out, Inr bp))"

definition set_condition ::
  "'loc Gdb \<Rightarrow> string option \<Rightarrow> written list \<times> (py_exn + Breakpoint option) \<Rightarrow> BreakResult" where
  \<comment> \<open>the end of \<^verbatim>\<open>invoke\<close>: \<^verbatim>\<open>if cond: bp.condition = cond\<close>, under \<^verbatim>\<open>except gdb.error\<close>\<close>
  "set_condition g cond r =
     (case r of
        (out, Inl exn) \<Rightarrow> \<lparr>printed = out, created = None, raised = Some exn\<rparr>
      | (out, Inr bp) \<Rightarrow>
          (case cond of
             None \<Rightarrow> \<lparr>printed = out, created = bp, raised = None\<rparr>
           | Some c \<Rightarrow>
               if c = [] then \<lparr>printed = out, created = bp, raised = None\<rparr>
               else
                 (case bp of
                    None \<Rightarrow> \<lparr>printed = out, created = None, raised = Some AttributeError\<rparr>
                  | Some b \<Rightarrow>
                      (case condition_error g c of
                         None \<Rightarrow> \<lparr>printed = out, created = Some (b\<lparr>condition := Some c\<rparr>),
                                   raised = None\<rparr>
                       | Some msg \<Rightarrow> \<lparr>printed = out @ [Print msg], created = Some b,
                                       raised = None\<rparr>))))"

definition BreakCommand_invoke :: "'loc Gdb \<Rightarrow> string option \<Rightarrow> string \<Rightarrow> BreakResult" where
  "BreakCommand_invoke g stdin arg =
     (let argv = split_max 2 (strip arg)
      in if length argv = 0
         then \<lparr>printed = [Print ''Breakpoint specification missing''], created = None,
               raised = None\<rparr>
         else if length argv = 1
         then set_condition g None (resolve g stdin (argv ! 0))
         else if length argv = 3
         then if argv ! 1 \<noteq> ''if''
              then \<lparr>printed = [Print ''Invalid arguments (second arg should be \"if\")''],
                    created = None, raised = None\<rparr>
              else set_condition g (Some (argv ! 2)) (resolve g stdin (argv ! 0))
         else \<lparr>printed = [Print ''Invalid number of arguments''], created = None,
               raised = None\<rparr>)"

section \<open>\<^verbatim>\<open>StatePrinter\<close>\<close>

record Binding =
  dsl_name :: string
  gen_name :: string

record 'loc ScopeState =
  bindings :: "Binding list"
  sorted_expressions :: "'loc ExprStart list \<times> 'loc ExprStart option"
    \<comment> \<open>the result of \<^verbatim>\<open>scope_state.sorted_expressions()\<close>: \<^verbatim>\<open>(done_exprs, last_started)\<close>\<close>

record 'loc State =
  property :: "'loc Property"
  in_memoization_lookup :: bool
  scopes :: "'loc ScopeState list"

text \<open>
  \<^verbatim>\<open>name_repr\<close>, \<^verbatim>\<open>expr_repr\<close> and \<^verbatim>\<open>prop_repr\<close> come from \<^verbatim>\<open>langkit.gdb.utils\<close>, which
  is an external collaborator: they are parameters.
\<close>

record 'loc Utils =
  name_repr :: "Binding \<Rightarrow> string"
  expr_repr :: "'loc ExprStart \<Rightarrow> string"
  prop_repr :: "'loc Property \<Rightarrow> string"
  sloc_str :: "'loc \<Rightarrow> string"  \<comment> \<open>\<^verbatim>\<open>'{}'.format(dsl_sloc)\<close>\<close>

record 'loc StatePrinter =
  utils :: "'loc Utils"
  frame :: "string \<Rightarrow> string"  \<comment> \<open>\<^verbatim>\<open>str(self.frame.read_var(name))\<close>\<close>
  state :: "'loc State option"  \<comment> \<open>\<^verbatim>\<open>self.context.decode_state(self.frame)\<close>\<close>
  with_ellipsis :: bool
  with_locs :: bool
  var_name :: "string option"

definition ellipsis_limit :: nat where
  "ellipsis_limit = 50"

definition loc_image :: "'loc StatePrinter \<Rightarrow> string \<Rightarrow> string" where
  "loc_image self v = (if with_locs self then '' ('' @ v @ '')'' else [])"

definition value_image :: "'loc StatePrinter \<Rightarrow> string \<Rightarrow> string" where
  "value_image self v =
     (let val = frame self (lower v)
      in if with_ellipsis self \<and> length val > ellipsis_limit
         then take ellipsis_limit val @ ''...''
         else val)"

definition binding_line :: "'loc StatePrinter \<Rightarrow> Binding \<Rightarrow> string" where
  \<comment> \<open>the text \<^verbatim>\<open>print_binding\<close> hands to its \<^verbatim>\<open>print_fn\<close>\<close>
  "binding_line self b =
     name_repr (utils self) b @ loc_image self (gen_name b) @ '' = ''
       @ value_image self (gen_name b)"

definition expr_line :: "'loc StatePrinter \<Rightarrow> 'loc ExprStart \<Rightarrow> string" where
  "expr_line self e =
     expr_repr (utils self) e @ loc_image self (result_var e) @ '' -> ''
       @ value_image self (result_var e)"

fun find_binding :: "string \<Rightarrow> Binding list \<Rightarrow> Binding option" where
  \<comment> \<open>the inner loop of the filter: the first binding it returns on, if any\<close>
  "find_binding v [] = None"
| "find_binding v (b # bs) = (if dsl_name b = v then Some b else find_binding v bs)"

fun find_in_scopes :: "string \<Rightarrow> 'loc ScopeState list \<Rightarrow> Binding option" where
  \<comment> \<open>the outer loop of the filter\<close>
  "find_in_scopes v [] = None"
| "find_in_scopes v (scope_state # rest) =
     (case find_binding v (bindings scope_state) of
        Some b \<Rightarrow> Some b
      | None \<Rightarrow> find_in_scopes v rest)"

text \<open>
  The state of the loop over the scopes: the lines written to \<^verbatim>\<open>self.sio\<close> so far (one
  per call of \<^verbatim>\<open>prn\<close>) and the flag \<^verbatim>\<open>is_first[0]\<close>.
\<close>

definition print_info :: "string \<Rightarrow> string list \<times> bool \<Rightarrow> string list \<times> bool" where
  "print_info strn st =
     (case st of (sio, is_first) \<Rightarrow>
        if is_first then (sio @ [[]] @ [strn], False) else (sio @ [strn], is_first))"

definition render_scope ::
  "'loc StatePrinter \<Rightarrow> 'loc ScopeState \<Rightarrow> string list \<Rightarrow> string list" where
  \<comment> \<open>one turn of \<^verbatim>\<open>for scope_state in self.state.scopes\<close>\<close>
  "render_scope self scope_state sio =
     (let st0 = (sio, True);
          st1 = fold (\<lambda>b. print_info (binding_line self b)) (bindings scope_state) st0;
          done_exprs = fst (sorted_expressions scope_state);
          last_started = snd (sorted_expressions scope_state);
          st2 = fold (\<lambda>e. print_info (expr_line self e)) done_exprs st1;
          st3 = (case last_started of
                   None \<Rightarrow> st2
                 | Some e \<Rightarrow>
                     let st = print_info (''Currently evaluating '' @ expr_repr (utils self) e) st2
                     in case dsl_sloc e of
                          None \<Rightarrow> st
                        | Some l \<Rightarrow> print_info (''from '' @ sloc_str (utils self) l) st)
      in fst st3)"

definition render_lines :: "'loc StatePrinter \<Rightarrow> string list" where
  \<comment> \<open>\<^verbatim>\<open>_render\<close>: the lines it writes to \<^verbatim>\<open>self.sio\<close>, one per call of \<^verbatim>\<open>prn\<close>\<close>
  "render_lines self =
     (case state self of
        None \<Rightarrow> [''Selected frame is not in a property.'']
      | Some s \<Rightarrow>
          if var_name self \<noteq> None \<and> the (var_name self) \<noteq> []
          then (case find_in_scopes (the (var_name self)) (scopes s) of
                  Some b \<Rightarrow> [binding_line self b]
                | None \<Rightarrow> [''No binding called '' @ the (var_name self)])
          else
            let sio = [''Running '' @ prop_repr (utils self) (property s)];
                sio = (case prop_dsl_sloc (property s) of
                         None \<Rightarrow> sio
                       | Some l \<Rightarrow> sio @ [''from '' @ sloc_str (utils self) l]);
                sio = (if in_memoization_lookup s
                       then sio @ [''About to return a memoized result...'']
                       else sio)
            in fold (render_scope self) (scopes s) sio)"

definition getvalue :: "string list \<Rightarrow> string" where
  \<comment> \<open>\<^verbatim>\<open>self.sio.getvalue()\<close>: every line written by \<^verbatim>\<open>prn\<close> ends with a newline\<close>
  "getvalue sio = concat (map (\<lambda>l. l @ [CHR 0x0A]) sio)"

definition run :: "'loc StatePrinter \<Rightarrow> written list" where
  "run self = [Print (getvalue (render_lines self))]"

section \<open>\<^verbatim>\<open>StateCommand\<close>\<close>

definition invoke_printer ::
  "'loc Utils \<Rightarrow> (string \<Rightarrow> string) \<Rightarrow> 'loc State option \<Rightarrow> string
    \<Rightarrow> written list \<times> 'loc StatePrinter option" where
  \<comment> \<open>\<^verbatim>\<open>StateCommand.invoke\<close> up to the construction of the \<^verbatim>\<open>StatePrinter\<close>: what it has
      printed, and the printer it builds (\<open>None\<close> when it returns before)\<close>
  "invoke_printer u fr st arg =
     (let args = split arg;
          has_flags = (args \<noteq> [] \<and> startswith (hd args) ''/'');
          flags = (if has_flags then set (tl (hd args)) else {});
          args = (if has_flags then tl args else args);
          invalid_flags = flags - set ''sf''
      in if has_flags \<and> invalid_flags \<noteq> {} then ([Print_Invalid_flags invalid_flags], None)
         else
           let var = (if args \<noteq> [] then Some (hd args) else None);
               args = (if args \<noteq> [] then tl args else args);
               out = (if args \<noteq> [] then [Print (''Invalid extra arguments: '' @ join '' '' args)]
                      else [])
           in (out, Some \<lparr>utils = u, frame = fr, state = st,
                           with_ellipsis = (CHR ''f'' \<notin> flags),
                           with_locs = (CHR ''s'' \<in> flags),
                           var_name = var\<rparr>))"

definition StateCommand_invoke ::
  "'loc Utils \<Rightarrow> (string \<Rightarrow> string) \<Rightarrow> 'loc State option \<Rightarrow> string \<Rightarrow> written list" where
  "StateCommand_invoke u fr st arg =
     (case invoke_printer u fr st arg of
        (out, None) \<Rightarrow> out
      | (out, Some printer) \<Rightarrow> out @ run printer)"

section \<open>The rendering in the specification's words\<close>

definition ellipsized :: "bool \<Rightarrow> string \<Rightarrow> string" where
  \<comment> \<open>a text longer than 50 characters is cut to its first 50 characters and the marker
      \<^verbatim>\<open>...\<close> when ellipsis is on; any other text is left as it is\<close>
  "ellipsized on text = (if on \<and> 50 < length text then take 50 text @ ''...'' else text)"

definition storage_suffix :: "'loc StatePrinter \<Rightarrow> string \<Rightarrow> string" where
  \<comment> \<open>with show-storage-names, the generated-code variable name in parentheses\<close>
  "storage_suffix self gen = (if with_locs self then '' ('' @ gen @ '')'' else [])"

definition display_text :: "'loc StatePrinter \<Rightarrow> string \<Rightarrow> string" where
  \<comment> \<open>the text of the value the frame holds under the lower-cased variable name\<close>
  "display_text self gen = ellipsized (with_ellipsis self) (frame self (lower gen))"

definition binding_text :: "'loc StatePrinter \<Rightarrow> Binding \<Rightarrow> string" where
  \<comment> \<open>\<^verbatim>\<open>name = value\<close>\<close>
  "binding_text self b =
     name_repr (utils self) b @ storage_suffix self (gen_name b) @ '' = ''
       @ display_text self (gen_name b)"

definition expression_text :: "'loc StatePrinter \<Rightarrow> 'loc ExprStart \<Rightarrow> string" where
  \<comment> \<open>\<^verbatim>\<open>expression -> value\<close>\<close>
  "expression_text self e =
     expr_repr (utils self) e @ storage_suffix self (result_var e) @ '' -> ''
       @ display_text self (result_var e)"

definition scope_group :: "'loc StatePrinter \<Rightarrow> 'loc ScopeState \<Rightarrow> string list" where
  \<comment> \<open>the lines of one ScopeState: its bindings in declaration order, then its finished
      expressions in completion order, then the expression in flight with its location\<close>
  "scope_group self scope_state =
     map (binding_text self) (bindings scope_state)
     @ map (expression_text self) (fst (sorted_expressions scope_state))
     @ (case snd (sorted_expressions scope_state) of
          None \<Rightarrow> []
        | Some e \<Rightarrow>
            (''Currently evaluating '' @ expr_repr (utils self) e)
            # (case dsl_sloc e of None \<Rightarrow> [] | Some l \<Rightarrow> [''from '' @ sloc_str (utils self) l]))"

definition separated :: "string list \<Rightarrow> string list" where
  \<comment> \<open>a blank line before the first line of a group that is not empty\<close>
  "separated ls = (if ls = [] then [] else [] # ls)"

definition unfiltered_order :: "'loc StatePrinter \<Rightarrow> 'loc State \<Rightarrow> string list" where
  "unfiltered_order self s =
     [''Running '' @ prop_repr (utils self) (property s)]
     @ (case prop_dsl_sloc (property s) of
          None \<Rightarrow> []
        | Some l \<Rightarrow> [''from '' @ sloc_str (utils self) l])
     @ (if in_memoization_lookup s then [''About to return a memoized result...''] else [])
     @ concat (map (\<lambda>scope_state. separated (scope_group self scope_state)) (scopes s))"

section \<open>Example inputs\<close>

definition ex_api :: "string DSLLocation" where
  \<comment> \<open>locations kept as their text, matching by equality\<close>
  "ex_api = \<lparr>DSLLocation_parse = (\<lambda>s. s), DSLLocation_matches = (\<lambda>l q. l = q),
             DSLLocation_str = (\<lambda>l. l)\<rparr>"

definition ex_e1 :: "string ExprStart" where
  "ex_e1 = \<lparr>result_var = ''R1'', dsl_sloc = Some ''spec.py:5'', line_no = 10,
            expr_text = ''x + 1''\<rparr>"

definition ex_e2 :: "string ExprStart" where
  "ex_e2 = \<lparr>result_var = ''R2'', dsl_sloc = Some ''spec.py:5'', line_no = 20,
            expr_text = ''x + 2''\<rparr>"

definition ex_e3 :: "string ExprStart" where
  "ex_e3 = \<lparr>result_var = ''R3'', dsl_sloc = Some ''spec.py:9'', line_no = 30,
            expr_text = ''x + 3''\<rparr>"

definition ex_prop :: "string Property" where
  "ex_prop = \<lparr>name = ''Foo.P'', prop_dsl_sloc = None, body_start = Some 7,
              events = [ExprStart ex_e1, Scope [ExprStart ex_e2, OtherEvent], ExprStart ex_e3]\<rparr>"

definition ex_abstract :: "string Property" where
  "ex_abstract = \<lparr>name = ''Foo.Abstract'', prop_dsl_sloc = None, body_start = None,
                  events = []\<rparr>"

definition ex_debug_info :: "string DebugInfo" where
  "ex_debug_info = \<lparr>filename = ''gen.adb'', properties = [ex_prop, ex_abstract]\<rparr>"

definition ex_gdb :: "string Gdb" where
  "ex_gdb = \<lparr>api = ex_api, debug_info = ex_debug_info, condition_error = (\<lambda>c. None)\<rparr>"

definition ex_utils :: "string Utils" where
  "ex_utils = \<lparr>name_repr = dsl_name, expr_repr = expr_text, prop_repr = name,
               sloc_str = (\<lambda>l. l)\<rparr>"

definition ex_frame :: "string \<Rightarrow> string" where
  \<comment> \<open>a frame whose variables are known under lower-case names\<close>
  "ex_frame v =
     (if v = ''x_1'' then ''1''
      else if v = ''r1'' then ''2''
      else if v = ''x_2'' then ''5''
      else replicate 60 CHR ''a'')"

definition ex_state :: "string State" where
  \<comment> \<open>property \<open>P\<close> with the binding \<open>x = 1\<close>, the finished expression \<open>x + 1 -> 2\<close>, about to
      evaluate \<open>x + 2\<close>\<close>
  "ex_state = \<lparr>property = ex_prop, in_memoization_lookup = False,
               scopes = [\<lparr>bindings = [\<lparr>dsl_name = ''x'', gen_name = ''X_1''\<rparr>],
                          sorted_expressions = ([ex_e1], Some (ex_e2\<lparr>dsl_sloc := None\<rparr>))\<rparr>]\<rparr>"

definition ex_shadowed :: "string State" where
  \<comment> \<open>two nested scopes that both bind \<open>x\<close>\<close>
  "ex_shadowed = \<lparr>property = ex_prop, in_memoization_lookup = False,
                  scopes = [\<lparr>bindings = [\<lparr>dsl_name = ''y'', gen_name = ''Y_1''\<rparr>,
                                         \<lparr>dsl_name = ''x'', gen_name = ''X_1''\<rparr>],
                             sorted_expressions = ([], None)\<rparr>,
                            \<lparr>bindings = [\<lparr>dsl_name = ''x'', gen_name = ''X_2''\<rparr>],
                             sorted_expressions = ([], None)\<rparr>]\<rparr>"

definition ex_printer :: "string State \<Rightarrow> string option \<Rightarrow> string StatePrinter" where
  \<comment> \<open>\<^verbatim>\<open>StatePrinter(context, var_name=var)\<close> with the default flags\<close>
  "ex_printer s var = \<lparr>utils = ex_utils, frame = ex_frame, state = Some s,
                        with_ellipsis = True, with_locs = False, var_name = var\<rparr>"

section \<open>Facts about the primitives\<close>

lemma len_split_max: "length (split_max n s) \<le> Suc n"
  by (induction n arbitrary: s) (auto simp: Let_def)

lemma split_max_nonempty: "w \<in> set (split_max n s) \<Longrightarrow> w \<noteq> []"
proof (induction n arbitrary: s)
  case 0
  then show ?case by (auto simp: Let_def split: if_splits)
next
  case (Suc n)
  show ?case
  proof (cases "dropWhile isspace s")
    case Nil
    with Suc.prems show ?thesis by simp
  next
    case (Cons c cs)
    then have "\<not> isspace c" using hd_dropWhile[of isspace s] by auto
    with Cons Suc show ?thesis by (auto simp: Let_def)
  qed
qed

lemma split_max_all_space: "dropWhile isspace s = [] \<Longrightarrow> split_max n s = []"
  by (cases n) simp_all

lemma split_max_Suc_ne:
  assumes "dropWhile isspace s \<noteq> []"
  shows "split_max (Suc n) s =
           takeWhile (\<lambda>c. \<not> isspace c) (dropWhile isspace s)
           # split_max n (dropWhile (\<lambda>c. \<not> isspace c) (dropWhile isspace s))"
  using assms by (simp only: split_max.simps Let_def if_False)

lemma split_max_Nil_iff: "split_max k t = [] \<longleftrightarrow> dropWhile isspace t = []"
  by (cases k) (simp_all add: Let_def)

lemma length_rest_less:
  assumes "dropWhile isspace s \<noteq> []"
  shows "length (dropWhile (\<lambda>c. \<not> isspace c) (dropWhile isspace s)) < length s"
proof -
  let ?r = "dropWhile isspace s"
  from assms have "\<not> isspace (hd ?r)" using hd_dropWhile[of isspace s] by simp
  with assms have "length (dropWhile (\<lambda>c. \<not> isspace c) ?r) < length ?r"
    by (cases ?r) (auto simp: le_imp_less_Suc length_dropWhile_le)
  moreover have "length ?r \<le> length s" by (rule length_dropWhile_le)
  ultimately show ?thesis by simp
qed

lemma split_max_fuel:
  "length s \<le> n \<Longrightarrow> length s \<le> m \<Longrightarrow> split_max n s = split_max m s"
proof (induction n arbitrary: s m)
  case 0
  then show ?case by (cases m) simp_all
next
  case (Suc n)
  show ?case
  proof (cases "dropWhile isspace s = []")
    case True
    then show ?thesis by (simp only: split_max_all_space)
  next
    case False
    then have "s \<noteq> []" by auto
    with Suc.prems obtain m' where m: "m = Suc m'" by (cases m) auto
    let ?rest = "dropWhile (\<lambda>c. \<not> isspace c) (dropWhile isspace s)"
    from length_rest_less[OF False] Suc.prems m
    have "length ?rest \<le> n" "length ?rest \<le> m'" by simp_all
    from Suc.IH[OF this] show ?thesis
      unfolding m by (simp only: split_max_Suc_ne[OF False])
  qed
qed

lemma split_max_0_length: "length (split_max 0 t) = min 1 (length (split_max k t))"
proof (cases "dropWhile isspace t = []")
  case True
  then show ?thesis using split_max_Nil_iff[of k t] by simp
next
  case False
  then have "split_max k t \<noteq> []" using split_max_Nil_iff[of k t] by simp
  then have "1 \<le> length (split_max k t)" by (cases "split_max k t") simp_all
  with False show ?thesis by (simp add: Let_def)
qed

lemma split_max_2_split_max:
  "length (split_max 2 s) = min 3 (length (split_max (Suc (Suc k)) s))
   \<and> take 2 (split_max 2 s) = take 2 (split_max (Suc (Suc k)) s)"
proof -
  have two: "split_max 2 s = split_max (Suc (Suc 0)) s" by (simp add: numeral_2_eq_2)
  let ?r = "dropWhile isspace s"
  let ?s1 = "dropWhile (\<lambda>c. \<not> isspace c) ?r"
  let ?r1 = "dropWhile isspace ?s1"
  let ?s2 = "dropWhile (\<lambda>c. \<not> isspace c) ?r1"
  let ?w1 = "takeWhile (\<lambda>c. \<not> isspace c) ?r"
  let ?w2 = "takeWhile (\<lambda>c. \<not> isspace c) ?r1"
  show ?thesis
  proof (cases "?r = []")
    case True
    then show ?thesis unfolding two by (simp only: split_max_all_space) simp
  next
    case r: False
    show ?thesis
    proof (cases "?r1 = []")
      case True
      have "split_max (Suc (Suc 0)) s = [?w1]" "split_max (Suc (Suc k)) s = [?w1]"
        by (simp_all only: split_max_Suc_ne[OF r] split_max_all_space[OF True])
      then show ?thesis unfolding two by simp
    next
      case r1: False
      have a: "split_max (Suc (Suc 0)) s = ?w1 # ?w2 # split_max 0 ?s2"
        by (simp only: split_max_Suc_ne[OF r] split_max_Suc_ne[OF r1])
      have b: "split_max (Suc (Suc k)) s = ?w1 # ?w2 # split_max k ?s2"
        by (simp only: split_max_Suc_ne[OF r] split_max_Suc_ne[OF r1])
      have c: "length (split_max 0 ?s2) = min 1 (length (split_max k ?s2))"
        by (rule split_max_0_length)
      show ?thesis unfolding two a b using c by (simp del: split_max.simps)
    qed
  qed
qed

lemma split_max_2_split:
  "length (split_max 2 s) = min 3 (length (split s))
   \<and> take 2 (split_max 2 s) = take 2 (split s)"
proof (cases "2 \<le> length s")
  case True
  then have "length s = Suc (Suc (length s - 2))" by simp
  then obtain k where "length s = Suc (Suc k)" ..
  then show ?thesis unfolding split_def using split_max_2_split_max[of s k] by simp
next
  case False
  then have "split_max 2 s = split s"
    unfolding split_def using split_max_fuel[of s 2 "length s"] by simp
  moreover have "length (split_max 2 s) \<le> 3" using len_split_max[of 2 s] by simp
  ultimately show ?thesis by simp
qed

lemma split_max_lstrip: "split_max n (dropWhile isspace s) = split_max n s"
  by (cases n) (simp_all add: dropWhile_idem)

lemma split_max_trailing:
  "\<forall>c\<in>set t. isspace c \<Longrightarrow> length s \<le> n \<Longrightarrow> split_max n (s @ t) = split_max n s"
proof (induction n arbitrary: s)
  case 0
  then have "dropWhile isspace t = []" by simp
  with 0 show ?case by simp
next
  case (Suc n)
  have tsp: "dropWhile isspace t = []" using Suc.prems(1) by simp
  let ?r = "dropWhile isspace s"
  show ?case
  proof (cases "?r = []")
    case True
    then have "\<forall>c\<in>set s. isspace c" by (simp add: dropWhile_eq_Nil_conv)
    then have "dropWhile isspace (s @ t) = []"
      using Suc.prems(1) by (auto simp: dropWhile_eq_Nil_conv)
    with True show ?thesis by (simp only: split_max_all_space)
  next
    case False
    then obtain x where x: "x \<in> set s" "\<not> isspace x" by (auto simp: dropWhile_eq_Nil_conv)
    then have r: "dropWhile isspace (s @ t) = ?r @ t" by (simp add: dropWhile_append1)
    then have ne: "dropWhile isspace (s @ t) \<noteq> []" using False by simp
    let ?rest = "dropWhile (\<lambda>c. \<not> isspace c) ?r"
    have len: "length ?rest \<le> n"
      using length_rest_less[OF False] Suc.prems(2) by simp
    have L: "split_max (Suc n) (s @ t) =
               takeWhile (\<lambda>c. \<not> isspace c) (?r @ t)
               # split_max n (dropWhile (\<lambda>c. \<not> isspace c) (?r @ t))"
      using split_max_Suc_ne[OF ne, of n] unfolding r .
    have R: "split_max (Suc n) s = takeWhile (\<lambda>c. \<not> isspace c) ?r # split_max n ?rest"
      by (rule split_max_Suc_ne[OF False])
    show ?thesis
    proof (cases "\<exists>c\<in>set ?r. isspace c")
      case True
      then obtain c where c: "c \<in> set ?r" "\<not> \<not> isspace c" by auto
      have tw: "takeWhile (\<lambda>c. \<not> isspace c) (?r @ t) = takeWhile (\<lambda>c. \<not> isspace c) ?r"
        using c by (rule takeWhile_append1)
      have dw: "dropWhile (\<lambda>c. \<not> isspace c) (?r @ t) = ?rest @ t"
        using c by (rule dropWhile_append1)
      show ?thesis
        unfolding L R tw dw using Suc.IH[OF Suc.prems(1) len] by (simp only:)
    next
      case nosp: False
      then have all: "\<And>c. c \<in> set ?r \<Longrightarrow> \<not> isspace c" by blast
      have twt: "takeWhile (\<lambda>c. \<not> isspace c) t = []"
        using Suc.prems(1) by (cases t) simp_all
      have dwt: "dropWhile (\<lambda>c. \<not> isspace c) t = t"
        using Suc.prems(1) by (cases t) simp_all
      have tw: "takeWhile (\<lambda>c. \<not> isspace c) (?r @ t) = ?r"
        using all twt by (simp add: takeWhile_append2)
      have dw: "dropWhile (\<lambda>c. \<not> isspace c) (?r @ t) = t"
        using all dwt by (simp add: dropWhile_append2)
      have tw': "takeWhile (\<lambda>c. \<not> isspace c) ?r = ?r"
        using all by (simp add: takeWhile_eq_all_conv)
      have dw': "?rest = []"
        using all by (simp add: dropWhile_eq_Nil_conv)
      have e1: "split_max n t = []" using tsp by (rule split_max_all_space)
      have e2: "split_max n ?rest = []" unfolding dw' by (rule split_max_all_space) simp
      show ?thesis
        unfolding L R tw dw tw' e1 e2 ..
    qed
  qed
qed

lemma strip_decomp:
  "\<exists>t. (\<forall>c\<in>set t. isspace c) \<and> dropWhile isspace s = strip s @ t"
proof -
  let ?l = "dropWhile isspace s"
  have "rev ?l = takeWhile isspace (rev ?l) @ dropWhile isspace (rev ?l)" by simp
  then have "rev (rev ?l) = rev (takeWhile isspace (rev ?l) @ dropWhile isspace (rev ?l))"
    by (rule arg_cong)
  then have "?l = rev (dropWhile isspace (rev ?l)) @ rev (takeWhile isspace (rev ?l))"
    by (simp only: rev_rev_ident rev_append)
  moreover have "\<forall>c\<in>set (rev (takeWhile isspace (rev ?l))). isspace c"
    by (auto dest: set_takeWhileD)
  ultimately show ?thesis unfolding strip_def by blast
qed

lemma split_strip: "split (strip s) = split s"
proof -
  obtain t where t: "\<forall>c\<in>set t. isspace c" "dropWhile isspace s = strip s @ t"
    using strip_decomp by blast
  have "length (strip s) \<le> length (dropWhile isspace s)" unfolding t(2) by simp
  then have l1: "length (strip s) \<le> length s"
    using length_dropWhile_le[of isspace s] by (rule le_trans)
  have "split s = split_max (length s) (dropWhile isspace s)"
    by (simp only: split_def split_max_lstrip)
  also have "\<dots> = split_max (length s) (strip s)"
    unfolding t(2) using t(1) l1 by (rule split_max_trailing)
  also have "\<dots> = split_max (length (strip s)) (strip s)"
    using l1 by (intro split_max_fuel) simp_all
  finally show ?thesis by (simp only: split_def)
qed

lemma argv_tokens:
  "length (split_max 2 (strip arg)) = min 3 (length (split arg))
   \<and> take 2 (split_max 2 (strip arg)) = take 2 (split arg)"
  using split_max_2_split[of "strip arg"] by (simp only: split_strip)

lemma lower_char_idem: "lower_char (lower_char c) = lower_char c"
proof -
  let ?n = "of_char c :: nat"
  show ?thesis
  proof (cases "65 \<le> ?n \<and> ?n \<le> 90")
    case True
    then have "(of_char (char_of (?n + 32)) :: nat) = ?n + 32" by simp
    with True show ?thesis by (simp add: lower_char_def Let_def)
  next
    case False
    then show ?thesis by (auto simp: lower_char_def Let_def)
  qed
qed

lemma lower_idem: "lower (lower s) = lower s"
  by (simp add: lower_def lower_char_idem)

lemma startswith_slash: "startswith s ''/'' \<longleftrightarrow> (\<exists>fl. s = CHR ''/'' # fl)"
  by (cases s) (auto simp: startswith_def)

lemma find_append:
  "find P (xs @ ys) = (case find P xs of Some x \<Rightarrow> Some x | None \<Rightarrow> find P ys)"
  by (induction xs) auto

lemma find_SomeD: "find P xs = Some x \<Longrightarrow> x \<in> set xs \<and> P x"
  by (induction xs) (auto split: if_splits)

section \<open>Facts about \<^verbatim>\<open>BreakCommand\<close>\<close>

lemma find_property_None:
  "find_property lp ps = None \<longleftrightarrow> (\<forall>p\<in>set ps. lower (name p) \<noteq> lp)"
  by (induction ps) auto

lemma find_property_first:
  "\<forall>x\<in>set before. lower (name x) \<noteq> lp \<Longrightarrow> lower (name p) = lp
     \<Longrightarrow> find_property lp (before @ p # after) = Some p"
  by (induction before) auto

lemma invoke_by_argv:
  "BreakCommand_invoke g stdin arg =
     (let argv = split_max 2 (strip arg)
      in if length argv = 0
         then \<lparr>printed = [Print ''Breakpoint specification missing''], created = None,
               raised = None\<rparr>
         else if length argv = 1
         then set_condition g None (resolve g stdin (argv ! 0))
         else if length argv = 3
         then if argv ! 1 \<noteq> ''if''
              then \<lparr>printed = [Print ''Invalid arguments (second arg should be \"if\")''],
                    created = None, raised = None\<rparr>
              else set_condition g (Some (argv ! 2)) (resolve g stdin (argv ! 0))
         else \<lparr>printed = [Print ''Invalid number of arguments''], created = None,
               raised = None\<rparr>)"
  by (simp only: BreakCommand_invoke_def)

lemma break_on_dsl_sloc_single_match:
  assumes "process_properties ops (DSLLocation_parse ops arg) (properties di) [] = [m]"
  shows "break_on_dsl_sloc ops di stdin arg =
           ([], Inr (Some (gdb_Breakpoint (filename di) (m_line_no m))))"
  using assms by (simp add: break_on_dsl_sloc_def Let_def)

lemma break_on_dsl_sloc_choice:
  assumes "matches = process_properties ops (DSLLocation_parse ops arg) (properties di) []"
    and "1 < length matches" and "choice \<noteq> []" and "py_int choice = Some c"
    and "1 \<le> c" and "c \<le> int (length matches)"
  shows "snd (break_on_dsl_sloc ops di (Some choice) arg) =
           (if c < int (length matches)
            then Inr (Some (gdb_Breakpoint (filename di) (m_line_no (matches ! nat c))))
            else Inl IndexError)"
proof -
  from assms(2) have ne: "matches \<noteq> []" "length matches \<noteq> 1" by auto
  from assms(5,6) have idx: "list_index matches c =
      (if c < int (length matches) then Inr (matches ! nat c) else Inl IndexError)"
    by (auto simp: list_index_def)
  show ?thesis
    using ne assms(3-6) unfolding break_on_dsl_sloc_def assms(1)[symmetric] Let_def
    by (simp add: idx)
qed

lemma break_on_dsl_sloc_rejected:
  assumes "matches = process_properties ops (DSLLocation_parse ops arg) (properties di) []"
    and "1 < length matches" and "choice \<noteq> []"
    and "py_int choice = None \<or> (\<exists>c. py_int choice = Some c \<and> (c < 1 \<or> int (length matches) < c))"
  shows "snd (break_on_dsl_sloc ops di (Some choice) arg) = Inr None"
proof -
  from assms(2) have ne: "matches \<noteq> []" "length matches \<noteq> 1" by auto
  show ?thesis
    using ne assms(3,4) unfolding break_on_dsl_sloc_def assms(1)[symmetric] Let_def
    by auto
qed

lemma set_condition_on_None:
  "set_condition g None (out, Inr None) = \<lparr>printed = out, created = None, raised = None\<rparr>"
  "c \<noteq> [] \<Longrightarrow> set_condition g (Some c) (out, Inr None) =
     \<lparr>printed = out, created = None, raised = Some AttributeError\<rparr>"
  by (simp_all add: set_condition_def)

subsection \<open>The disambiguation prompt of \<^verbatim>\<open>break_on_dsl_sloc\<close>\<close>

text \<open>
  C1. With several matches the list is numbered from 1 and the choice is checked against
  \<open>1..N\<close>, but the match is then taken with \<^verbatim>\<open>matches[choice]\<close>, which counts from 0. In
  the example two matches are listed, \<open>[1]\<close> at line 10 and \<open>[2]\<close> at line 20: the choice
  \<open>1\<close> and the empty answer both put the breakpoint on line 20, the second match, and the
  choice \<open>2\<close> raises \<^verbatim>\<open>IndexError\<close>.
\<close>

theorem break_on_dsl_sloc_choice_off_by_one:
  "break_on_dsl_sloc ex_api ex_debug_info (Some ''1'') ''spec.py:5'' =
     ([Print ''Multiple matches for spec.py:5:'',
       Print ''[1] In Foo.P, spec.py:5'', Print ''    at gen.adb:10'',
       Print ''[2] In Foo.P, spec.py:5'', Print ''    at gen.adb:20'',
       Print ''Please chose one of the above locations [default=1]:'',
       Prompt ''> ''],
      Inr (Some \<lparr>location = ''gen.adb:20'', condition = None\<rparr>))
   \<and> snd (break_on_dsl_sloc ex_api ex_debug_info (Some []) ''spec.py:5'') =
       Inr (Some \<lparr>location = ''gen.adb:20'', condition = None\<rparr>)
   \<and> snd (break_on_dsl_sloc ex_api ex_debug_info (Some ''2'') ''spec.py:5'') = Inl IndexError"
  by code_simp

subsection \<open>Failed resolution in \<^verbatim>\<open>invoke\<close>\<close>

text \<open>
  C2. \<^verbatim>\<open>invoke\<close> assigns the condition to whatever the resolution returned. When the
  resolution has failed it returned \<^verbatim>\<open>None\<close>, and with a condition after \<^verbatim>\<open>if\<close> the
  assignment \<^verbatim>\<open>bp.condition = cond\<close> raises \<^verbatim>\<open>AttributeError\<close>, which the handler for
  \<^verbatim>\<open>gdb.error\<close> does not catch: the exception leaves the command. The example runs the
  five ways of failing with a condition: no such property, a property without body, no
  location match, end of input at the prompt, and a choice out of range.
\<close>

theorem invoke_condition_on_failed_resolution:
  "BreakCommand_invoke ex_gdb None ''nosuch if x'' =
     \<lparr>printed = [Print ''No such property: nosuch''], created = None,
      raised = Some AttributeError\<rparr>
   \<and> BreakCommand_invoke ex_gdb None ''Foo.Abstract if x'' =
     \<lparr>printed = [Print ''Cannot break on Foo.Abstract: it has no code''], created = None,
      raised = Some AttributeError\<rparr>
   \<and> BreakCommand_invoke ex_gdb None ''spec.py:6 if x'' =
     \<lparr>printed = [Print ''No match for spec.py:6''], created = None,
      raised = Some AttributeError\<rparr>
   \<and> created (BreakCommand_invoke ex_gdb None ''spec.py:5 if x'') = None
   \<and> raised (BreakCommand_invoke ex_gdb None ''spec.py:5 if x'') = Some AttributeError
   \<and> last (printed (BreakCommand_invoke ex_gdb None ''spec.py:5 if x'')) =
       Print ''Aborting: no breakpoint created''
   \<and> created (BreakCommand_invoke ex_gdb (Some ''0'') ''spec.py:5 if x'') = None
   \<and> raised (BreakCommand_invoke ex_gdb (Some ''0'') ''spec.py:5 if x'') = Some AttributeError
   \<and> last (printed (BreakCommand_invoke ex_gdb (Some ''0'') ''spec.py:5 if x'')) =
       Print ''Choice must be in range 1-2''"
  by code_simp

subsection \<open>Resolution by qualified name\<close>

text \<open>
  C7. \<^verbatim>\<open>break_on_property\<close> compares the lower-cased argument with the lower-cased name of
  each property. A spelling whose lower-case form is that of a recorded name finds the
  first property recorded under such a name, whatever the letter case of the spelling and
  of the recorded name, and the breakpoint is at \<^verbatim>\<open>filename:body_start\<close> of that property,
  or the command prints that the property has no code and creates no breakpoint when it
  has no \<^verbatim>\<open>body_start\<close>. Two spellings with the same lower-case form find the same
  property and give the same breakpoint (or none); so do a name and its lower-case form.
  When no property has that lower-case name the command prints \<^verbatim>\<open>No such property\<close> and
  creates no breakpoint.
\<close>

theorem break_on_property_case_insensitive:
  "(properties di = before @ p # after \<and> lower (name p) = lower q
      \<and> (\<forall>x\<in>set before. lower (name x) \<noteq> lower q) \<longrightarrow>
        find_property (lower q) (properties di) = Some p
        \<and> break_on_property di q =
            (case body_start p of
               None \<Rightarrow> ([Print (''Cannot break on '' @ name p @ '': it has no code'')], None)
             | Some l \<Rightarrow> ([], Some (gdb_Breakpoint (filename di) l))))
   \<and> (lower q1 = lower q2 \<longrightarrow>
      find_property (lower q1) (properties di) = find_property (lower q2) (properties di)
      \<and> snd (break_on_property di q1) = snd (break_on_property di q2))
   \<and> snd (break_on_property di (lower q)) = snd (break_on_property di q)
   \<and> ((\<forall>p\<in>set (properties di). lower (name p) \<noteq> lower q) \<longrightarrow>
        break_on_property di q = ([Print (''No such property: '' @ q)], None))
   \<and> (find_property (lower q) (properties di) = Some p \<and> body_start p = None \<longrightarrow>
        break_on_property di q =
          ([Print (''Cannot break on '' @ name p @ '': it has no code'')], None))
   \<and> (find_property (lower q) (properties di) = Some p \<and> body_start p = Some l \<longrightarrow>
        break_on_property di q = ([], Some (gdb_Breakpoint (filename di) l)))"
proof -
  have found: "find_property (lower q) (properties di) = Some p
        \<and> break_on_property di q =
            (case body_start p of
               None \<Rightarrow> ([Print (''Cannot break on '' @ name p @ '': it has no code'')], None)
             | Some l \<Rightarrow> ([], Some (gdb_Breakpoint (filename di) l)))"
    if "properties di = before @ p # after" "lower (name p) = lower q"
       "\<forall>x\<in>set before. lower (name x) \<noteq> lower q"
  proof -
    have "find_property (lower q) (properties di) = Some p"
      unfolding that(1) using that(3,2) by (rule find_property_first)
    then show ?thesis by (simp add: break_on_property_def Let_def)
  qed
  have rest: "(lower q1 = lower q2 \<longrightarrow>
      find_property (lower q1) (properties di) = find_property (lower q2) (properties di)
      \<and> snd (break_on_property di q1) = snd (break_on_property di q2))
   \<and> snd (break_on_property di (lower q)) = snd (break_on_property di q)
   \<and> ((\<forall>p\<in>set (properties di). lower (name p) \<noteq> lower q) \<longrightarrow>
        break_on_property di q = ([Print (''No such property: '' @ q)], None))
   \<and> (find_property (lower q) (properties di) = Some p \<and> body_start p = None \<longrightarrow>
        break_on_property di q =
          ([Print (''Cannot break on '' @ name p @ '': it has no code'')], None))
   \<and> (find_property (lower q) (properties di) = Some p \<and> body_start p = Some l \<longrightarrow>
        break_on_property di q = ([], Some (gdb_Breakpoint (filename di) l)))"
    by (auto simp: break_on_property_def Let_def lower_idem find_property_None[symmetric]
          split: option.splits)
  from found rest show ?thesis by blast
qed

theorem break_on_property_case_insensitive_witness:
  "find_property (lower ''FOO.p'') (properties ex_debug_info) = Some ex_prop
   \<and> break_on_property ex_debug_info ''FOO.p'' =
       ([], Some \<lparr>location = ''gen.adb:7'', condition = None\<rparr>)
   \<and> snd (break_on_property ex_debug_info ''Foo.P'') = snd (break_on_property ex_debug_info ''foo.p'')
   \<and> break_on_property ex_debug_info ''foo.p'' =
       ([], Some \<lparr>location = ''gen.adb:7'', condition = None\<rparr>)
   \<and> break_on_property ex_debug_info ''nosuch'' = ([Print ''No such property: nosuch''], None)
   \<and> break_on_property ex_debug_info ''FOO.ABSTRACT'' =
       ([Print ''Cannot break on Foo.Abstract: it has no code''], None)"
proof -
  note main = break_on_property_case_insensitive[where di = ex_debug_info]
  have h0: "properties ex_debug_info = [] @ ex_prop # [ex_abstract]
            \<and> lower (name ex_prop) = lower ''FOO.p''
            \<and> (\<forall>x\<in>set []. lower (name x) \<noteq> lower ''FOO.p'')"
    by code_simp
  have h1: "lower ''Foo.P'' = lower ''foo.p''" by code_simp
  have h2: "\<forall>p\<in>set (properties ex_debug_info). lower (name p) \<noteq> lower ''nosuch''"
    by code_simp
  have h3: "find_property (lower ''FOO.ABSTRACT'') (properties ex_debug_info) = Some ex_abstract
            \<and> body_start ex_abstract = None"
    by code_simp
  have h4: "find_property (lower ''foo.p'') (properties ex_debug_info) = Some ex_prop
            \<and> body_start ex_prop = Some 7"
    by code_simp
  have c0: "find_property (lower ''FOO.p'') (properties ex_debug_info) = Some ex_prop
            \<and> break_on_property ex_debug_info ''FOO.p'' =
            (case body_start ex_prop of
               None \<Rightarrow> ([Print (''Cannot break on '' @ name ex_prop @ '': it has no code'')], None)
             | Some l \<Rightarrow> ([], Some (gdb_Breakpoint (filename ex_debug_info) l)))"
    using main[where before = "[]" and p = ex_prop and after = "[ex_abstract]"
                 and q = "''FOO.p''"] h0 by blast
  have e0: "(case body_start ex_prop of
               None \<Rightarrow> ([Print (''Cannot break on '' @ name ex_prop @ '': it has no code'')], None)
             | Some l \<Rightarrow> ([], Some (gdb_Breakpoint (filename ex_debug_info) l)))
            = ([], Some \<lparr>location = ''gen.adb:7'', condition = None\<rparr>)"
    by code_simp
  have c1: "snd (break_on_property ex_debug_info ''Foo.P'')
              = snd (break_on_property ex_debug_info ''foo.p'')"
    using main[where ?q1.0 = "''Foo.P''" and ?q2.0 = "''foo.p''"] h1 by blast
  have c2: "break_on_property ex_debug_info ''foo.p''
              = ([], Some (gdb_Breakpoint (filename ex_debug_info) 7))"
    using main[where q = "''foo.p''" and p = ex_prop and l = 7] h4 by blast
  have c3: "break_on_property ex_debug_info ''nosuch''
              = ([Print (''No such property: '' @ ''nosuch'')], None)"
    using main[where q = "''nosuch''"] h2 by blast
  have c4: "break_on_property ex_debug_info ''FOO.ABSTRACT''
              = ([Print (''Cannot break on '' @ name ex_abstract @ '': it has no code'')], None)"
    using main[where q = "''FOO.ABSTRACT''" and p = ex_abstract] h3 by blast
  have e2: "gdb_Breakpoint (filename ex_debug_info) 7 = \<lparr>location = ''gen.adb:7'', condition = None\<rparr>"
    by code_simp
  have e4: "''Cannot break on '' @ name ex_abstract @ '': it has no code''
             = ''Cannot break on Foo.Abstract: it has no code''"
    by code_simp
  from c0 e0 c1 c2 c3 c4 e2 e4 show ?thesis by simp
qed

subsection \<open>The arguments of \<^verbatim>\<open>invoke\<close>\<close>

text \<open>
  C8. Counting the space-delimited tokens of the argument: with no token the command
  prints that the specification is missing; with one token it resolves it without a
  condition; with two tokens it prints that the number of arguments is invalid; with
  three tokens or more whose second is \<^verbatim>\<open>if\<close> it resolves the first and attaches as the
  condition the whole rest of the line after \<^verbatim>\<open>if\<close> (the third item of
  \<^verbatim>\<open>arg.strip().split(None, 2)\<close>, never empty); with three tokens or more whose second is
  not \<^verbatim>\<open>if\<close> it prints its own message. In the rejected forms no breakpoint is created
  and nothing is raised.
\<close>

theorem invoke_token_forms:
  "let tokens = split arg; r = BreakCommand_invoke g stdin arg
   in (length tokens = 0 \<longrightarrow>
         r = \<lparr>printed = [Print ''Breakpoint specification missing''], created = None,
              raised = None\<rparr>)
      \<and> (length tokens = 1 \<longrightarrow> r = set_condition g None (resolve g stdin (tokens ! 0)))
      \<and> (length tokens = 2 \<longrightarrow>
           r = \<lparr>printed = [Print ''Invalid number of arguments''], created = None,
                raised = None\<rparr>)
      \<and> (3 \<le> length tokens \<and> tokens ! 1 = ''if'' \<longrightarrow>
           split_max 2 (strip arg) ! 2 \<noteq> []
           \<and> r = set_condition g (Some (split_max 2 (strip arg) ! 2))
                   (resolve g stdin (tokens ! 0)))
      \<and> (3 \<le> length tokens \<and> tokens ! 1 \<noteq> ''if'' \<longrightarrow>
           r = \<lparr>printed = [Print ''Invalid arguments (second arg should be \"if\")''],
                created = None, raised = None\<rparr>)"
proof -
  let ?argv = "split_max 2 (strip arg)"
  let ?tokens = "split arg"
  have len: "length ?argv = min 3 (length ?tokens)"
    and tk: "take 2 ?argv = take 2 ?tokens"
    using argv_tokens[of arg] by simp_all
  have a0: "1 \<le> length ?tokens \<Longrightarrow> ?argv ! 0 = ?tokens ! 0"
  proof -
    assume h: "1 \<le> length ?tokens"
    have "?argv ! 0 = take 2 ?argv ! 0" by simp
    also have "\<dots> = take 2 ?tokens ! 0" by (simp only: tk)
    also have "\<dots> = ?tokens ! 0" by simp
    finally show ?thesis .
  qed
  have a1: "2 \<le> length ?tokens \<Longrightarrow> ?argv ! 1 = ?tokens ! 1"
  proof -
    assume h: "2 \<le> length ?tokens"
    have "?argv ! 1 = take 2 ?argv ! 1" by simp
    also have "\<dots> = take 2 ?tokens ! 1" by (simp only: tk)
    also have "\<dots> = ?tokens ! 1" by simp
    finally show ?thesis .
  qed
  have ne: "length ?argv = 3 \<Longrightarrow> ?argv ! 2 \<noteq> []"
    using split_max_nonempty[of "?argv ! 2" 2 "strip arg"] by simp
  have c0: "length ?tokens = 0 \<Longrightarrow> length ?argv = 0" using len by simp
  have c1: "length ?tokens = 1 \<Longrightarrow> length ?argv = 1" using len by simp
  have c2: "length ?tokens = 2 \<Longrightarrow> length ?argv = 2" using len by simp
  have c3: "3 \<le> length ?tokens \<Longrightarrow> length ?argv = 3" using len by simp
  show ?thesis
    unfolding Let_def invoke_by_argv[of g stdin arg, unfolded Let_def]
    using a0 a1 ne c0 c1 c2 c3 by (auto simp del: split_max.simps)
qed

theorem invoke_token_forms_witness:
  "BreakCommand_invoke ex_gdb None ''Foo.P'' =
     \<lparr>printed = [], created = Some \<lparr>location = ''gen.adb:7'', condition = None\<rparr>,
      raised = None\<rparr>
   \<and> BreakCommand_invoke ex_gdb None ''Foo.P if x > 1'' =
     \<lparr>printed = [], created = Some \<lparr>location = ''gen.adb:7'', condition = Some ''x > 1''\<rparr>,
      raised = None\<rparr>
   \<and> BreakCommand_invoke ex_gdb None ''Foo.P when x'' =
     \<lparr>printed = [Print ''Invalid arguments (second arg should be \"if\")''], created = None,
      raised = None\<rparr>
   \<and> BreakCommand_invoke ex_gdb None [] =
     \<lparr>printed = [Print ''Breakpoint specification missing''], created = None, raised = None\<rparr>
   \<and> BreakCommand_invoke ex_gdb None ''Foo.P if'' =
     \<lparr>printed = [Print ''Invalid number of arguments''], created = None, raised = None\<rparr>"
proof -
  note main = invoke_token_forms[where g = ex_gdb and stdin = None, unfolded Let_def]
  have s1: "split ''Foo.P'' = [''Foo.P'']" by code_simp
  have s2: "split ''Foo.P if x > 1'' = [''Foo.P'', ''if'', ''x'', ''>'', ''1'']" by code_simp
  have s2': "split_max 2 (strip ''Foo.P if x > 1'') ! 2 = ''x > 1''" by code_simp
  have s3: "split ''Foo.P when x'' = [''Foo.P'', ''when'', ''x'']" by code_simp
  have s4: "split [] = []" by code_simp
  have s5: "split ''Foo.P if'' = [''Foo.P'', ''if'']" by code_simp
  have c1: "BreakCommand_invoke ex_gdb None ''Foo.P'' =
              set_condition ex_gdb None (resolve ex_gdb None ''Foo.P'')"
    using main[where arg = "''Foo.P''"] unfolding s1 by simp
  have c2: "BreakCommand_invoke ex_gdb None ''Foo.P if x > 1'' =
              set_condition ex_gdb (Some ''x > 1'') (resolve ex_gdb None ''Foo.P'')"
    using main[where arg = "''Foo.P if x > 1''"] unfolding s2 s2' by simp
  have c3: "BreakCommand_invoke ex_gdb None ''Foo.P when x'' =
     \<lparr>printed = [Print ''Invalid arguments (second arg should be \"if\")''], created = None,
      raised = None\<rparr>"
    using main[where arg = "''Foo.P when x''"] unfolding s3 by simp
  have c4: "BreakCommand_invoke ex_gdb None [] =
     \<lparr>printed = [Print ''Breakpoint specification missing''], created = None, raised = None\<rparr>"
    using main[where arg = "[]"] unfolding s4 by simp
  have c5: "BreakCommand_invoke ex_gdb None ''Foo.P if'' =
     \<lparr>printed = [Print ''Invalid number of arguments''], created = None, raised = None\<rparr>"
    using main[where arg = "''Foo.P if''"] unfolding s5 by simp
  have e1: "set_condition ex_gdb None (resolve ex_gdb None ''Foo.P'') =
     \<lparr>printed = [], created = Some \<lparr>location = ''gen.adb:7'', condition = None\<rparr>,
      raised = None\<rparr>"
    by code_simp
  have e2: "set_condition ex_gdb (Some ''x > 1'') (resolve ex_gdb None ''Foo.P'') =
     \<lparr>printed = [], created = Some \<lparr>location = ''gen.adb:7'', condition = Some ''x > 1''\<rparr>,
      raised = None\<rparr>"
    by code_simp
  from c1 c2 c3 c4 c5 e1 e2 show ?thesis by simp
qed

text \<open>
  C8, on the token counts other than one and three: a line of five tokens is not rejected.
  The condition is the rest of the line, as in the example of the command's
  documentation, so \<^verbatim>\<open>Foo.P if x y z\<close> creates the breakpoint with the condition
  \<^verbatim>\<open>x y z\<close>.
\<close>

theorem invoke_token_forms_counterexample:
  "length (split ''Foo.P if x y z'') = 5
   \<and> BreakCommand_invoke ex_gdb None ''Foo.P if x y z'' =
       \<lparr>printed = [],
        created = Some \<lparr>location = ''gen.adb:7'', condition = Some ''x y z''\<rparr>,
        raised = None\<rparr>"
  by code_simp

section \<open>Facts about \<^verbatim>\<open>StatePrinter\<close> and \<^verbatim>\<open>StateCommand\<close>\<close>

lemma value_image_text: "value_image self v = ellipsized (with_ellipsis self) (frame self (lower v))"
  by (simp add: value_image_def ellipsized_def ellipsis_limit_def Let_def)

lemma binding_line_text: "binding_line self b = binding_text self b"
  by (simp add: binding_line_def binding_text_def loc_image_def storage_suffix_def
        display_text_def value_image_text)

lemma expr_line_text: "expr_line self e = expression_text self e"
  by (simp add: expr_line_def expression_text_def loc_image_def storage_suffix_def
        display_text_def value_image_text)

lemma fold_print_info:
  "fold (\<lambda>x. print_info (f x)) xs (sio, fl) =
     (if xs = [] then (sio, fl) else (sio @ (if fl then [[]] else []) @ map f xs, False))"
  by (induction xs arbitrary: sio fl) (auto simp: print_info_def)

lemma render_scope_eq: "render_scope self ss sio = sio @ separated (scope_group self ss)"
  by (auto simp: render_scope_def scope_group_def separated_def fold_print_info print_info_def
        binding_line_text expr_line_text Let_def split: option.splits)

lemma fold_render_scope:
  "fold (render_scope self) sss sio =
     sio @ concat (map (\<lambda>ss. separated (scope_group self ss)) sss)"
  by (induction sss arbitrary: sio) (auto simp: render_scope_eq)

lemma find_binding_find: "find_binding v bs = find (\<lambda>b. dsl_name b = v) bs"
  by (induction bs) auto

lemma find_in_scopes_find:
  "find_in_scopes v ss = find (\<lambda>b. dsl_name b = v) (concat (map bindings ss))"
  by (induction ss) (auto simp: find_binding_find find_append split: option.splits)

lemma invoke_printer_flags:
  assumes "split arg = (CHR ''/'' # fl) # rest"
  shows "invoke_printer u fr st arg =
     (if set fl - set ''sf'' \<noteq> {} then ([Print_Invalid_flags (set fl - set ''sf'')], None)
      else (if tl rest \<noteq> [] then [Print (''Invalid extra arguments: '' @ join '' '' (tl rest))]
            else [],
            Some \<lparr>utils = u, frame = fr, state = st, with_ellipsis = (CHR ''f'' \<notin> set fl),
                  with_locs = (CHR ''s'' \<in> set fl),
                  var_name = (if rest \<noteq> [] then Some (hd rest) else None)\<rparr>))"
  using assms by (simp add: invoke_printer_def startswith_slash Let_def)

lemma invoke_printer_no_flags:
  assumes "\<not> (\<exists>fl rest. split arg = (CHR ''/'' # fl) # rest)"
  shows "invoke_printer u fr st arg =
     (if tl (split arg) \<noteq> []
      then [Print (''Invalid extra arguments: '' @ join '' '' (tl (split arg)))]
      else [],
      Some \<lparr>utils = u, frame = fr, state = st, with_ellipsis = True, with_locs = False,
            var_name = (if split arg \<noteq> [] then Some (hd (split arg)) else None)\<rparr>)"
proof -
  have "\<not> (split arg \<noteq> [] \<and> startswith (hd (split arg)) ''/'')"
    using assms by (cases "split arg") (auto simp: startswith_slash)
  then show ?thesis
    by (auto simp: invoke_printer_def Let_def)
qed

lemma invoke_extra_arguments:
  assumes "split arg = v # w # ws" and "\<not> startswith v ''/''"
  shows "StateCommand_invoke u fr st arg =
           Print (''Invalid extra arguments: '' @ join '' '' (w # ws))
           # run \<lparr>utils = u, frame = fr, state = st, with_ellipsis = True, with_locs = False,
                  var_name = Some v\<rparr>"
proof -
  from assms have "\<not> (\<exists>fl rest. split arg = (CHR ''/'' # fl) # rest)"
    by (auto simp: startswith_slash)
  from invoke_printer_no_flags[OF this, of u fr st] assms(1) show ?thesis
    by (simp add: StateCommand_invoke_def)
qed

lemma render_lines_frame_cong:
  assumes "\<And>n. f1 (lower n) = f2 (lower n)"
  shows "render_lines (self\<lparr>frame := f1\<rparr>) = render_lines (self\<lparr>frame := f2\<rparr>)"
proof -
  have bl: "binding_line (self\<lparr>frame := f1\<rparr>) = binding_line (self\<lparr>frame := f2\<rparr>)"
    using assms by (intro ext) (simp add: binding_line_def loc_image_def value_image_def)
  have el: "expr_line (self\<lparr>frame := f1\<rparr>) = expr_line (self\<lparr>frame := f2\<rparr>)"
    using assms by (intro ext) (simp add: expr_line_def loc_image_def value_image_def)
  have rs: "render_scope (self\<lparr>frame := f1\<rparr>) = render_scope (self\<lparr>frame := f2\<rparr>)"
    by (intro ext) (simp add: render_scope_def bl el Let_def split: option.splits)
  show ?thesis
    by (simp add: render_lines_def bl rs Let_def split: option.splits)
qed

subsection \<open>Extra arguments of \<^verbatim>\<open>StateCommand.invoke\<close>\<close>

text \<open>
  C3. After printing \<^verbatim>\<open>Invalid extra arguments\<close> the command does not return: it goes on
  to build the \<^verbatim>\<open>StatePrinter\<close> and runs it. For \<^verbatim>\<open>state x y\<close> the message is followed by
  the rendering of the binding \<open>x\<close>.
\<close>

theorem invoke_extra_arguments_still_render:
  "StateCommand_invoke ex_utils ex_frame (Some ex_state) ''x y'' =
     [Print ''Invalid extra arguments: y'', Print (''x = 1'' @ [CHR 0x0A])]"
  by code_simp

subsection \<open>Unfiltered rendering\<close>

text \<open>
  C4. Without a filter, and with a decoded state, \<^verbatim>\<open>_render\<close> writes the lines of
  \<open>unfiltered_order\<close>: the header \<^verbatim>\<open>Running\<close> with the property, the line \<^verbatim>\<open>from\<close> with
  its location if it has one, the note on memoization if the lookup is in progress, then
  for each ScopeState in the order of \<^verbatim>\<open>state.scopes\<close>: one line \<^verbatim>\<open>name = value\<close> for each
  binding in order, one line \<^verbatim>\<open>expression -> value\<close> for each finished expression in
  order, and the expression in flight after \<^verbatim>\<open>Currently evaluating\<close> (followed by its
  location if it has one), with one blank line before the first line of each ScopeState
  that writes a line. The value is the text the frame holds under the lower-cased variable
  name, cut to 50 characters and \<^verbatim>\<open>...\<close> when ellipsis is on; with the flag \<^verbatim>\<open>s\<close> each name
  is followed by the name of its variable in parentheses.
\<close>

theorem render_unfiltered_order:
  assumes "state self = Some s" and "var_name self = None \<or> var_name self = Some []"
  shows "render_lines self = unfiltered_order self s"
  using assms
  by (auto simp: render_lines_def unfiltered_order_def fold_render_scope Let_def
        split: option.splits)

theorem render_unfiltered_order_witness:
  "state (ex_printer ex_state None) = Some ex_state
   \<and> var_name (ex_printer ex_state None) = None
   \<and> render_lines (ex_printer ex_state None) =
       [''Running Foo.P'', [], ''x = 1'', ''x + 1 -> 2'', ''Currently evaluating x + 2'']"
proof -
  have h1: "state (ex_printer ex_state None) = Some ex_state"
    by (simp add: ex_printer_def)
  have h2: "var_name (ex_printer ex_state None) = None"
    by (simp add: ex_printer_def)
  have "render_lines (ex_printer ex_state None) = unfiltered_order (ex_printer ex_state None) ex_state"
    using render_unfiltered_order[of "ex_printer ex_state None" ex_state] h1 h2 by blast
  moreover have "unfiltered_order (ex_printer ex_state None) ex_state =
       [''Running Foo.P'', [], ''x = 1'', ''x + 1 -> 2'', ''Currently evaluating x + 2'']"
    by code_simp
  ultimately show ?thesis using h1 h2 by simp
qed

subsection \<open>Ellipsis\<close>

text \<open>
  C5. With ellipsis on, a value text longer than 50 characters is rendered as its first 50
  characters followed by \<^verbatim>\<open>...\<close>, and a text of at most 50 characters is rendered
  unchanged; with ellipsis off the text is rendered unchanged whatever its length. The
  printer that \<^verbatim>\<open>state\<close> builds has ellipsis off exactly when a flags token containing
  \<^verbatim>\<open>f\<close> was given, and a flags token made of \<^verbatim>\<open>s\<close> and \<^verbatim>\<open>f\<close> only does build a printer.
\<close>

theorem value_image_ellipsis:
  "(with_ellipsis self \<and> length (frame self (lower v)) > 50 \<longrightarrow>
      value_image self v = take 50 (frame self (lower v)) @ ''...'')
   \<and> (with_ellipsis self \<and> length (frame self (lower v)) \<le> 50 \<longrightarrow>
        value_image self v = frame self (lower v))
   \<and> (\<not> with_ellipsis self \<longrightarrow> value_image self v = frame self (lower v))
   \<and> (invoke_printer u fr st arg = (out, Some p) \<longrightarrow>
        frame p = fr
        \<and> with_ellipsis p =
            (\<not> (\<exists>fl rest. split arg = (CHR ''/'' # fl) # rest \<and> CHR ''f'' \<in> set fl)))
   \<and> (split arg = (CHR ''/'' # fl) # rest \<and> set fl \<subseteq> set ''sf'' \<longrightarrow>
        (\<exists>out p. invoke_printer u fr st arg = (out, Some p)))"
proof -
  have img: "value_image self v =
      (if with_ellipsis self \<and> 50 < length (frame self (lower v))
       then take 50 (frame self (lower v)) @ ''...'' else frame self (lower v))"
    by (simp add: value_image_def ellipsis_limit_def Let_def)
  have built: "frame p = fr \<and> with_ellipsis p =
            (\<not> (\<exists>fl rest. split arg = (CHR ''/'' # fl) # rest \<and> CHR ''f'' \<in> set fl))"
    if h: "invoke_printer u fr st arg = (out, Some p)"
  proof (cases "\<exists>fl rest. split arg = (CHR ''/'' # fl) # rest")
    case True
    then obtain fl rest where sp: "split arg = (CHR ''/'' # fl) # rest" by blast
    from h show ?thesis
      unfolding invoke_printer_flags[OF sp] using sp by (auto split: if_splits)
  next
    case False
    from h show ?thesis
      unfolding invoke_printer_no_flags[OF False] using False by auto
  qed
  have ok: "\<exists>out p. invoke_printer u fr st arg = (out, Some p)"
    if "split arg = (CHR ''/'' # fl) # rest" and "set fl \<subseteq> set ''sf''"
  proof -
    from that(2) have "set fl - set ''sf'' = {}" by blast
    then show ?thesis unfolding invoke_printer_flags[OF that(1)] by simp
  qed
  from img built ok show ?thesis by auto
qed

theorem value_image_ellipsis_witness:
  "value_image (ex_printer ex_state None) ''LONG'' = replicate 50 CHR ''a'' @ ''...''
   \<and> value_image (ex_printer ex_state None) ''X_1'' = ''1''
   \<and> (\<exists>out p. invoke_printer ex_utils ex_frame (Some ex_state) ''/f'' = (out, Some p)
         \<and> \<not> with_ellipsis p \<and> value_image p ''LONG'' = replicate 60 CHR ''a'')"
proof -
  let ?P = "ex_printer ex_state None"
  note long = value_image_ellipsis[THEN conjunct1, rule_format]
  note short = value_image_ellipsis[THEN conjunct2, THEN conjunct1, rule_format]
  note full = value_image_ellipsis[THEN conjunct2, THEN conjunct2, THEN conjunct1, rule_format]
  note built = value_image_ellipsis[THEN conjunct2, THEN conjunct2, THEN conjunct2,
                 THEN conjunct1, rule_format]
  note accepted = value_image_ellipsis[THEN conjunct2, THEN conjunct2, THEN conjunct2,
                    THEN conjunct2, rule_format]
  have a: "with_ellipsis ?P \<and> length (frame ?P (lower ''LONG'')) > 50" by code_simp
  have a': "take 50 (frame ?P (lower ''LONG'')) @ ''...'' = replicate 50 CHR ''a'' @ ''...''"
    by code_simp
  have b: "with_ellipsis ?P \<and> length (frame ?P (lower ''X_1'')) \<le> 50" by code_simp
  have b': "frame ?P (lower ''X_1'') = ''1''" by code_simp
  have c1: "value_image ?P ''LONG'' = replicate 50 CHR ''a'' @ ''...''"
    using long[OF a] a' by (rule trans)
  have c2: "value_image ?P ''X_1'' = ''1''"
    using short[OF b] b' by (rule trans)
  have sp: "split ''/f'' = (CHR ''/'' # ''f'') # [] \<and> set ''f'' \<subseteq> set ''sf''" by code_simp
  from accepted[OF sp] obtain out p where
    ip: "invoke_printer ex_utils ex_frame (Some ex_state) ''/f'' = (out, Some p)"
    by blast
  have fl: "\<exists>fl rest. split ''/f'' = (CHR ''/'' # fl) # rest \<and> CHR ''f'' \<in> set fl"
    using sp by auto
  have pf: "frame p = ex_frame \<and> \<not> with_ellipsis p"
    using built[OF ip] fl by blast
  have "value_image p ''LONG'' = frame p (lower ''LONG'')"
    using full pf by blast
  moreover have "ex_frame (lower ''LONG'') = replicate 60 CHR ''a''" by code_simp
  ultimately have c3: "value_image p ''LONG'' = replicate 60 CHR ''a''" using pf by simp
  from c1 c2 ip pf c3 show ?thesis by blast
qed

subsection \<open>The variable filter\<close>

text \<open>
  C6. With a filter \<open>v\<close> and a decoded state: when some binding of some ScopeState has the
  DSL name \<open>v\<close>, the rendering is one line and nothing else, made of the name of one such
  binding (followed by its variable in parentheses with the flag \<^verbatim>\<open>s\<close>), \<^verbatim>\<open> = \<close>, and the
  text the frame holds under its lower-cased variable name (cut when ellipsis is on); when
  none has, it is the single line \<^verbatim>\<open>No binding called v\<close>.
\<close>

theorem render_filter:
  assumes "state self = Some s" and "var_name self = Some v" and "v \<noteq> []"
  shows "if \<exists>b\<in>set (concat (map bindings (scopes s))). dsl_name b = v
         then \<exists>b\<in>set (concat (map bindings (scopes s))).
                dsl_name b = v
                \<and> render_lines self =
                    [name_repr (utils self) b @ storage_suffix self (gen_name b) @ '' = ''
                       @ ellipsized (with_ellipsis self) (frame self (lower (gen_name b)))]
                \<and> run self =
                    [Print (name_repr (utils self) b @ storage_suffix self (gen_name b) @ '' = ''
                       @ ellipsized (with_ellipsis self) (frame self (lower (gen_name b)))
                       @ [CHR 0x0A])]
         else render_lines self = [''No binding called '' @ v]
              \<and> run self = [Print (''No binding called '' @ v @ [CHR 0x0A])]"
proof (cases "find (\<lambda>b. dsl_name b = v) (concat (map bindings (scopes s)))")
  case None
  then have "\<not> (\<exists>b\<in>set (concat (map bindings (scopes s))). dsl_name b = v)"
    unfolding find_None_iff by blast
  with None assms show ?thesis
    by (simp add: render_lines_def run_def getvalue_def find_in_scopes_find)
next
  case (Some b)
  then have "b \<in> set (concat (map bindings (scopes s))) \<and> dsl_name b = v"
    by (rule find_SomeD)
  moreover have "render_lines self = [binding_text self b]"
    using Some assms by (simp add: render_lines_def find_in_scopes_find binding_line_text)
  ultimately show ?thesis
    by (auto simp: run_def getvalue_def binding_text_def display_text_def)
qed

theorem render_filter_witness:
  "render_lines (ex_printer ex_state (Some ''x'')) = [''x = 1'']
   \<and> run (ex_printer ex_state (Some ''z'')) = [Print (''No binding called z'' @ [CHR 0x0A])]"
proof -
  let ?P = "ex_printer ex_state (Some ''x'')"
  let ?Q = "ex_printer ex_state (Some ''z'')"
  let ?b = "\<lparr>dsl_name = ''x'', gen_name = ''X_1''\<rparr>"
  have bs: "concat (map bindings (scopes ex_state)) = [?b]"
    by (simp add: ex_state_def)
  have "\<exists>b\<in>set (concat (map bindings (scopes ex_state))).
          dsl_name b = ''x''
          \<and> render_lines ?P =
                    [name_repr (utils ?P) b @ storage_suffix ?P (gen_name b) @ '' = ''
                       @ ellipsized (with_ellipsis ?P) (frame ?P (lower (gen_name b)))]"
    using render_filter[of ?P ex_state "''x''"] unfolding bs by (simp add: ex_printer_def)
  then have "render_lines ?P =
                    [name_repr (utils ?P) ?b @ storage_suffix ?P (gen_name ?b) @ '' = ''
                       @ ellipsized (with_ellipsis ?P) (frame ?P (lower (gen_name ?b)))]"
    unfolding bs by simp
  moreover have "name_repr (utils ?P) ?b @ storage_suffix ?P (gen_name ?b) @ '' = ''
                       @ ellipsized (with_ellipsis ?P) (frame ?P (lower (gen_name ?b))) = ''x = 1''"
    by code_simp
  ultimately have c1: "render_lines ?P = [''x = 1'']" by simp
  have c2: "run ?Q = [Print (''No binding called z'' @ [CHR 0x0A])]"
    using render_filter[of ?Q ex_state "''z''"] unfolding bs by (simp add: ex_printer_def)
  from c1 c2 show ?thesis by simp
qed

text \<open>
  C9. When several bindings have the name of the filter, the one rendered is the first in
  the scan: no binding of an earlier (outer) ScopeState and no earlier binding of the same
  ScopeState has the name. Whatever follows it, in the same ScopeState or in the inner
  ones, is not rendered.
\<close>

theorem render_filter_first_match:
  assumes "state self = Some s" and "var_name self = Some v" and "v \<noteq> []"
    and "scopes s = outer @ scope_state # inner"
    and "bindings scope_state = before @ b # after"
    and "\<forall>sc\<in>set outer. \<forall>x\<in>set (bindings sc). dsl_name x \<noteq> v"
    and "\<forall>x\<in>set before. dsl_name x \<noteq> v"
    and "dsl_name b = v"
  shows "render_lines self = [binding_line self b]"
proof -
  have "find (\<lambda>b. dsl_name b = v) (concat (map bindings outer)) = None"
    using assms(6) by (auto simp: find_None_iff)
  moreover have "find (\<lambda>b. dsl_name b = v) before = None"
    using assms(7) by (auto simp: find_None_iff)
  ultimately have "find_in_scopes v (scopes s) = Some b"
    using assms(4,5,8) by (simp add: find_in_scopes_find find_append)
  with assms(1-3) show ?thesis
    by (simp add: render_lines_def)
qed

theorem render_filter_first_match_witness:
  "render_lines (ex_printer ex_shadowed (Some ''x'')) = [''x = 1'']"
proof -
  let ?P = "ex_printer ex_shadowed (Some ''x'')"
  let ?b = "\<lparr>dsl_name = ''x'', gen_name = ''X_1''\<rparr>"
  let ?sc = "\<lparr>bindings = [\<lparr>dsl_name = ''y'', gen_name = ''Y_1''\<rparr>, ?b],
              sorted_expressions = ([], None) :: string ExprStart list \<times> string ExprStart option\<rparr>"
  let ?inner = "[\<lparr>bindings = [\<lparr>dsl_name = ''x'', gen_name = ''X_2''\<rparr>],
              sorted_expressions = ([], None) :: string ExprStart list \<times> string ExprStart option\<rparr>]"
  have "render_lines ?P = [binding_line ?P ?b]"
    using render_filter_first_match[of ?P ex_shadowed "''x''" "[]" ?sc ?inner
            "[\<lparr>dsl_name = ''y'', gen_name = ''Y_1''\<rparr>]" ?b "[]"]
    by (simp add: ex_printer_def ex_shadowed_def)
  moreover have "binding_line ?P ?b = ''x = 1''" by code_simp
  ultimately show ?thesis by simp
qed

subsection \<open>Reading values from the frame\<close>

text \<open>
  C10. \<^verbatim>\<open>value_image\<close> asks the frame for the lower-cased name: the image of a name is the
  text the frame holds under its lower-case form (cut when ellipsis is on), and this is
  the value shown on the line of a binding and on the line of a finished expression. So
  two names with the same lower-case form have the same image, the image of a name is the
  image of its lower-case form, and two frames that agree on every lower-cased name give
  the same rendering.
\<close>

theorem value_image_reads_lower_case:
  "value_image self v = ellipsized (with_ellipsis self) (frame self (lower v))
   \<and> binding_line self b =
       name_repr (utils self) b @ storage_suffix self (gen_name b) @ '' = ''
         @ ellipsized (with_ellipsis self) (frame self (lower (gen_name b)))
   \<and> expr_line self e =
       expr_repr (utils self) e @ storage_suffix self (result_var e) @ '' -> ''
         @ ellipsized (with_ellipsis self) (frame self (lower (result_var e)))
   \<and> (lower v1 = lower v2 \<longrightarrow> value_image self v1 = value_image self v2)
   \<and> value_image self v = value_image self (lower v)
   \<and> ((\<forall>n. f1 (lower n) = f2 (lower n))
        \<longrightarrow> render_lines (self\<lparr>frame := f1\<rparr>) = render_lines (self\<lparr>frame := f2\<rparr>))"
  by (auto simp: value_image_text binding_line_text expr_line_text binding_text_def
        expression_text_def display_text_def lower_idem intro: render_lines_frame_cong)

theorem value_image_reads_lower_case_witness:
  "value_image (ex_printer ex_state None) ''X_1'' = ''1''
   \<and> value_image (ex_printer ex_state None) ''X_1'' = value_image (ex_printer ex_state None) ''x_1''
   \<and> render_lines ((ex_printer ex_state None)\<lparr>frame := (\<lambda>n. ex_frame (lower n))\<rparr>)
       = render_lines ((ex_printer ex_state None)\<lparr>frame := ex_frame\<rparr>)"
proof -
  let ?P = "ex_printer ex_state None"
  note main = value_image_reads_lower_case[where self = ?P]
  have h1: "lower ''X_1'' = lower ''x_1''" by code_simp
  have h2: "\<forall>n. (\<lambda>n. ex_frame (lower n)) (lower n) = ex_frame (lower n)"
    by (simp add: lower_idem)
  have "value_image ?P ''X_1'' = ellipsized (with_ellipsis ?P) (frame ?P (lower ''X_1''))"
    using main[where v = "''X_1''"] by blast
  moreover have "ellipsized (with_ellipsis ?P) (frame ?P (lower ''X_1'')) = ''1''" by code_simp
  ultimately have c1: "value_image ?P ''X_1'' = ''1''" by simp
  have c2: "value_image ?P ''X_1'' = value_image ?P ''x_1''"
    using main[where ?v1.0 = "''X_1''" and ?v2.0 = "''x_1''"] h1 by blast
  have c3: "render_lines (?P\<lparr>frame := (\<lambda>n. ex_frame (lower n))\<rparr>)
       = render_lines (?P\<lparr>frame := ex_frame\<rparr>)"
    using main[where ?f1.0 = "\<lambda>n. ex_frame (lower n)" and ?f2.0 = ex_frame] h2 by blast
  from c1 c2 c3 show ?thesis by simp
qed

end
